theory Spec2Isabelle
  imports Main
begin

section \<open>The voice assistant's turn-taking controller\<close>

text \<open>
  The component \<open>VoiceAssistant\<close> with its two hooks \<open>useSpeechRecognition\<close> and
  \<open>useSpeechSynthesis\<close>, as a state machine. Every function of the source is one
  definition below and keeps its name. What the source leaves to the runtime is written
  out:
  \<^item> a \<open>useState\<close> cell and a \<open>useRef\<close> cell are fields of one record;
  \<^item> a \<open>setTimeout\<close> is an entry of the field \<open>timers\<close> (the silence timer lives
    in \<open>silenceTimerRef\<close>, the only timer the source ever clears), with its delay and
    with the values its closure captured;
  \<^item> the \<open>await\<close> of \<open>sendMessage\<close> splits \<open>handleUserMessage\<close> in the part before
    the request, the continuation on a reply and the \<open>catch\<close> block; the requests that
    have not resolved are the field \<open>inflight\<close>, the messages handed to the backend are
    the field \<open>sent\<close>;
  \<^item> the updates a handler makes are applied together when it returns, then the
    component renders; a \<open>useEffect\<close> runs after a render in which one of its
    dependencies differs from the previous render; the dependencies of the last render
    are the \<open>dep\<close> fields; an effect reads the state cells of its render and the refs
    as they are when it runs;
  \<^item> the speech recogniser, the speech synthesiser, the backend, the timers and the
    user are the environment: what they do is an \<open>event\<close>, and a run of the component
    is a list of events;
  \<^item> the session identifier is not modelled: it is fixed and no handler reads it but
    to pass it on;
  \<^item> strings are lists of 8-bit characters.
\<close>

subsection \<open>Strings\<close>

text \<open>\<open>String.prototype.split(' ')\<close>: the pieces between single space characters;
  the empty string gives one empty piece.\<close>

fun split_space :: "string \<Rightarrow> string list" where
  "split_space [] = [[]]"
| "split_space (c # cs) =
     (if c = CHR '' '' then [] # split_space cs
      else (case split_space cs of [] \<Rightarrow> [[c]] | w # ws \<Rightarrow> (c # w) # ws))"

text \<open>The white space that \<open>String.prototype.trim\<close> removes, as far as it lies in the
  8-bit range: tab, line feed, vertical tab, form feed, carriage return, space and the
  no-break space.\<close>

definition is_ws :: "char \<Rightarrow> bool" where
  "is_ws c = (c = CHR 0x09 \<or> c = CHR 0x0A \<or> c = CHR 0x0B \<or> c = CHR 0x0C \<or> c = CHR 0x0D
     \<or> c = CHR 0x20 \<or> c = CHR 0xA0)"

definition js_trim :: "string \<Rightarrow> string" where
  "js_trim s = rev (dropWhile is_ws (rev (dropWhile is_ws s)))"

text \<open>The number of words of a text in the usual sense, the maximal runs of characters
  other than the space: the pieces of \<open>split_space\<close> that are not empty. The source does
  not compute it; it is what the specification calls the word count.\<close>

definition word_count :: "string \<Rightarrow> nat" where
  "word_count s = length (filter (\<lambda>w. w \<noteq> []) (split_space s))"

subsection \<open>Data\<close>

datatype status = Idle | Listening | Processing | Speaking | Error

text \<open>The completion callbacks handed to \<open>speak\<close>: the one of \<open>handleStart\<close> and the
  one of \<open>handleUserMessage\<close>, whose timer reads the \<open>isSpeaking\<close> of the render that
  created the closure.\<close>

datatype on_end = GreetingEnd | ReplyEnd bool

text \<open>The pending timeouts other than the silence timer: the settle delay before a
  reply is spoken (with the reply and the captured \<open>isSpeaking\<close>), and the four timers
  that resume listening.\<close>

datatype timer =
    Settle string bool
  | ResumeAfterSpeech bool
  | ResumeAfterError
  | ResumeAfterInterrupt
  | ResumeAfterCancel

record va_state =
  status :: status
  currentTranscript :: string
  lastResponse :: string
  hasStarted :: bool
  needsPermission :: bool
  silenceTimerRef :: "(nat \<times> bool \<times> string) option"
  processingRef :: bool
  lastTranscriptRef :: string
  isListening :: bool
  transcript :: string
  interimTranscript :: string
  recError :: "string option"
  recSupported :: bool
  isSpeaking :: bool
  synthSupported :: bool
  recStarted :: bool
  utterance :: "(string \<times> on_end) option"
  timers :: "(nat \<times> timer) list"
  inflight :: "(nat \<times> bool) list"
  sent :: "string list"
  depInterim :: string
  depTranscript :: string
  depListening :: bool
  depStarted :: bool
  depSpeaking :: bool

text \<open>
  \<open>recError\<close> and \<open>recSupported\<close> are \<open>error\<close> and \<open>isSupported\<close> of
  \<open>useSpeechRecognition\<close>; \<open>synthSupported\<close> is \<open>isSupported\<close> of
  \<open>useSpeechSynthesis\<close>, which the mount effect sets to whether
  \<open>window.speechSynthesis\<close> exists. \<open>recStarted\<close> records that \<open>start()\<close> has been
  called on the recogniser, \<open>utterance\<close> is the utterance queued or being spoken,
  with its completion callback. A silence timer is its delay with the \<open>isListening\<close>
  and \<open>interimTranscript\<close> its closure captured. An entry of \<open>inflight\<close> is the index
  of the request in \<open>sent\<close> with the \<open>isSpeaking\<close> its continuation captured.

  The state after mounting, in an environment with or without speech synthesis and
  speech recognition; without recognition the mount effect of the hook has set its
  error message:
\<close>

definition init :: "bool \<Rightarrow> bool \<Rightarrow> va_state" where
  "init synth rec =
     \<lparr> status = Idle, currentTranscript = [], lastResponse = [], hasStarted = False,
       needsPermission = True, silenceTimerRef = None, processingRef = False,
       lastTranscriptRef = [], isListening = False, transcript = [],
       interimTranscript = [],
       recError =
         (if rec then None
          else Some (''Speech recognition is not supported in this browser. ''
                     @ ''Please use Chrome or Edge.'')),
       recSupported = rec, isSpeaking = False,
       synthSupported = synth, recStarted = False, utterance = None, timers = [],
       inflight = [], sent = [], depInterim = [], depTranscript = [],
       depListening = False, depStarted = False, depSpeaking = False \<rparr>"

subsection \<open>useSpeechRecognition\<close>

definition startListening :: "va_state \<Rightarrow> va_state" where
  "startListening s =
     (if \<not> recSupported s then s
      else s\<lparr>recError := None, transcript := [], interimTranscript := [],
             isListening := True, recStarted := True\<rparr>)"

definition stopListening :: "va_state \<Rightarrow> va_state" where
  "stopListening s = s\<lparr>isListening := False\<rparr>"

definition resetTranscript :: "va_state \<Rightarrow> va_state" where
  "resetTranscript s = s\<lparr>transcript := [], interimTranscript := []\<rparr>"

text \<open>The loop of \<open>recognition.onresult\<close> over the results of the event, each a text
  with its \<open>isFinal\<close> flag; the accumulator is \<open>(interimText, finalText)\<close>.\<close>

fun collect :: "(string \<times> bool) list \<Rightarrow> string \<times> string \<Rightarrow> string \<times> string" where
  "collect [] acc = acc"
| "collect ((t, fin) # rs) (interimText, finalText) =
     (if fin then collect rs (interimText, finalText @ t @ '' '')
      else collect rs (interimText @ t, finalText))"

definition onresult :: "(string \<times> bool) list \<Rightarrow> va_state \<Rightarrow> va_state" where
  "onresult rs s =
     (let (interimText, finalText) = collect rs ([], []);
          s1 = s\<lparr>interimTranscript := interimText\<rparr>
      in if finalText \<noteq> [] then s1\<lparr>transcript := js_trim finalText, interimTranscript := []\<rparr>
         else s1)"

definition onerror :: "string \<Rightarrow> va_state \<Rightarrow> va_state" where
  "onerror e s =
     (if e = ''not-allowed''
      then s\<lparr>recError := Some ''Microphone access denied. Please allow microphone access.'',
             isListening := False\<rparr>
      else if e = ''no-speech'' then s
      else s\<lparr>recError := Some (''Speech recognition error: '' @ e), isListening := False\<rparr>)"

subsection \<open>useSpeechSynthesis\<close>

text \<open>\<open>window.speechSynthesis.cancel()\<close> empties the queue; the utterance it removes
  gets an error event, whose handler sets \<open>isSpeaking\<close> to false and does not call the
  completion callback.\<close>

definition synthCancel :: "va_state \<Rightarrow> va_state" where
  "synthCancel s =
     (case utterance s of None \<Rightarrow> s | Some u \<Rightarrow> s\<lparr>isSpeaking := False, utterance := None\<rparr>)"

definition speak :: "string \<Rightarrow> on_end \<Rightarrow> va_state \<Rightarrow> va_state" where
  "speak text cb s =
     (if \<not> synthSupported s then s
      else (synthCancel s)\<lparr>utterance := Some (text, cb)\<rparr>)"

text \<open>\<open>stop\<close> of the hook, called \<open>stopSpeaking\<close> by the component. Where
  \<open>window.speechSynthesis\<close> does not exist its first statement raises a TypeError;
  the callers below write that case out.\<close>

definition stopSpeaking :: "va_state \<Rightarrow> va_state" where
  "stopSpeaking s = (synthCancel s)\<lparr>isSpeaking := False\<rparr>"

subsection \<open>VoiceAssistant: handlers\<close>

definition silenceDelay :: "string \<Rightarrow> nat" where
  "silenceDelay text = (if length (split_space text) > 5 then 1200 else 1500)"

text \<open>\<open>handleUserMessage\<close> up to the call of \<open>sendMessage\<close>. \<open>r\<close> is the render whose
  closure this is: the completion callback built later reads its \<open>isSpeaking\<close>.\<close>

definition handleUserMessage :: "va_state \<Rightarrow> string \<Rightarrow> va_state \<Rightarrow> va_state" where
  "handleUserMessage r message s =
     (if js_trim message = [] \<or> processingRef s then s
      else (stopListening (s\<lparr>processingRef := True\<rparr>))
             \<lparr>status := Processing, currentTranscript := message,
              sent := sent s @ [message],
              inflight := inflight s @ [(length (sent s), isSpeaking r)]\<rparr>)"

text \<open>The continuation of \<open>handleUserMessage\<close> when request \<open>k\<close> resolves with a reply:
  the response is stored and the settle delay of 200 starts.\<close>

definition backendReply :: "nat \<Rightarrow> string \<Rightarrow> va_state \<Rightarrow> va_state" where
  "backendReply k reply s =
     (case map_of (inflight s) k of
        None \<Rightarrow> s
      | Some cap \<Rightarrow>
          s\<lparr>inflight := filter (\<lambda>p. fst p \<noteq> k) (inflight s), lastResponse := reply,
            timers := timers s @ [(200, Settle reply cap)]\<rparr>)"

text \<open>The \<open>catch\<close> block of \<open>handleUserMessage\<close> when request \<open>k\<close> fails.\<close>

definition backendFail :: "nat \<Rightarrow> va_state \<Rightarrow> va_state" where
  "backendFail k s =
     (case map_of (inflight s) k of
        None \<Rightarrow> s
      | Some cap \<Rightarrow>
          s\<lparr>inflight := filter (\<lambda>p. fst p \<noteq> k) (inflight s), processingRef := False,
            status := Error, currentTranscript := ''Sorry, something went wrong'',
            timers := timers s @ [(2000, ResumeAfterError)]\<rparr>)"

text \<open>The completion callbacks.\<close>

fun run_on_end :: "on_end \<Rightarrow> va_state \<Rightarrow> va_state" where
  "run_on_end GreetingEnd s = startListening s"
| "run_on_end (ReplyEnd cap) s =
     s\<lparr>processingRef := False, status := Idle, currentTranscript := [], lastResponse := [],
       timers := timers s @ [(800, ResumeAfterSpeech cap)]\<rparr>"

text \<open>The bodies of the timeouts.\<close>

fun fire :: "timer \<Rightarrow> va_state \<Rightarrow> va_state" where
  "fire (Settle reply cap) s = speak reply (ReplyEnd cap) (s\<lparr>status := Speaking\<rparr>)"
| "fire (ResumeAfterSpeech cap) s =
     (if \<not> cap then startListening (s\<lparr>status := Listening\<rparr>) else s)"
| "fire ResumeAfterError s = startListening (s\<lparr>status := Listening, currentTranscript := []\<rparr>)"
| "fire ResumeAfterInterrupt s = startListening s"
| "fire ResumeAfterCancel s = startListening (s\<lparr>status := Listening\<rparr>)"

definition handleInterrupt :: "va_state \<Rightarrow> va_state" where
  "handleInterrupt s =
     (if isSpeaking s then
        (if \<not> synthSupported s then s
         else (stopSpeaking s)
                \<lparr>processingRef := False, status := Listening, currentTranscript := [],
                 lastResponse := [], timers := timers s @ [(300, ResumeAfterInterrupt)]\<rparr>)
      else s)"

text \<open>In \<open>handleCancel\<close> the call of \<open>stopSpeaking\<close> comes second: where it raises,
  only \<open>stopListening\<close> has happened.\<close>

definition handleCancel :: "va_state \<Rightarrow> va_state" where
  "handleCancel s =
     (let s1 = stopListening s
      in if \<not> synthSupported s then s1
         else (stopSpeaking s1)
                \<lparr>processingRef := False, status := Idle, currentTranscript := [],
                 lastResponse := [], timers := timers s @ [(500, ResumeAfterCancel)]\<rparr>)"

definition handleStart :: "va_state \<Rightarrow> va_state" where
  "handleStart s =
     speak ''Hello! How can I help you?'' GreetingEnd
       (s\<lparr>needsPermission := False, status := Listening, hasStarted := True\<rparr>)"

text \<open>The callback of the silence timer. \<open>isListening\<close> and \<open>interimTranscript\<close> are
  the values its closure captured, \<open>processingRef\<close> is read when it runs.\<close>

definition silenceFire :: "va_state \<Rightarrow> va_state" where
  "silenceFire s =
     (case silenceTimerRef s of
        None \<Rightarrow> s
      | Some (d, l, t) \<Rightarrow>
          (let s1 = s\<lparr>silenceTimerRef := None\<rparr>
           in if l \<and> t \<noteq> [] \<and> \<not> processingRef s then stopListening s1 else s1))"

subsection \<open>VoiceAssistant: effects\<close>

text \<open>
  An effect reads the state cells of the render \<open>r\<close> it belongs to and the refs as they
  are when it runs, in \<open>s\<close>; its updates go to \<open>s\<close>. The three effects in the order of
  the source: silence detection, final transcript, status.
\<close>

definition silenceEffect :: "va_state \<Rightarrow> va_state \<Rightarrow> va_state" where
  "silenceEffect r s =
     (if interimTranscript r \<noteq> [] \<and> isListening r \<and> \<not> processingRef s
      then s\<lparr>currentTranscript := interimTranscript r,
             silenceTimerRef :=
               Some (silenceDelay (interimTranscript r), isListening r, interimTranscript r)\<rparr>
      else s)"

definition transcriptEffect :: "va_state \<Rightarrow> va_state \<Rightarrow> va_state" where
  "transcriptEffect r s =
     (if transcript r \<noteq> [] \<and> \<not> isListening r \<and> hasStarted r \<and> \<not> processingRef s then
        (if transcript r \<noteq> lastTranscriptRef s \<and> length (js_trim (transcript r)) > 0
         then resetTranscript
                (handleUserMessage r (transcript r) (s\<lparr>lastTranscriptRef := transcript r\<rparr>))
         else s)
      else s)"

definition statusEffect :: "va_state \<Rightarrow> va_state \<Rightarrow> va_state" where
  "statusEffect r s =
     (if processingRef s then s
      else if isSpeaking r then
        (let s1 = s\<lparr>status := Speaking\<rparr> in if isListening r then stopListening s1 else s1)
      else if isListening r then s\<lparr>status := Listening\<rparr>
      else s)"

text \<open>One render with its effects: each effect runs if one of its dependencies differs
  from the previous render, and the render's dependencies are remembered.\<close>

definition pass :: "va_state \<Rightarrow> va_state" where
  "pass r =
     (let s1 = (if interimTranscript r \<noteq> depInterim r then silenceEffect r r else r);
          s2 = (if transcript r \<noteq> depTranscript r \<or> isListening r \<noteq> depListening r
                   \<or> hasStarted r \<noteq> depStarted r
                then transcriptEffect r s1 else s1);
          s3 = (if isListening r \<noteq> depListening r \<or> isSpeaking r \<noteq> depSpeaking r
                then statusEffect r s2 else s2)
      in s3\<lparr>depInterim := interimTranscript r, depTranscript := transcript r,
            depListening := isListening r, depStarted := hasStarted r,
            depSpeaking := isSpeaking r\<rparr>)"

text \<open>An effect that changes a state cell causes another render. Three renders reach a
  state in which no dependency has changed (lemma \<open>pass_settle\<close> below).\<close>

definition settle :: "va_state \<Rightarrow> va_state" where
  "settle s = pass (pass (pass s))"

subsection \<open>Events\<close>

datatype event =
    Start
  | Interrupt
  | Cancel
  | Result "(string \<times> bool) list"
  | RecError string
  | SilenceFire
  | TimerFire nat
  | BackendReply nat string
  | BackendFail nat
  | UtteranceStart
  | UtteranceEnd
  | UtteranceError

text \<open>
  What an event does before the next render. An event that cannot happen in a state
  leaves it unchanged: the start button is rendered while \<open>needsPermission\<close>, the cancel
  button when it is not and nothing is being spoken; the recogniser reports nothing
  before it has been started; a timer fires once; an utterance event needs an utterance.
\<close>

fun handle :: "event \<Rightarrow> va_state \<Rightarrow> va_state" where
  "handle Start s = (if needsPermission s then handleStart s else s)"
| "handle Interrupt s = handleInterrupt s"
| "handle Cancel s =
     (if \<not> needsPermission s \<and> \<not> isSpeaking s then handleCancel s else s)"
| "handle (Result rs) s = (if recStarted s then onresult rs s else s)"
| "handle (RecError e) s = (if recStarted s then onerror e s else s)"
| "handle SilenceFire s = silenceFire s"
| "handle (TimerFire i) s =
     (if i < length (timers s)
      then fire (snd (timers s ! i)) (s\<lparr>timers := take i (timers s) @ drop (Suc i) (timers s)\<rparr>)
      else s)"
| "handle (BackendReply k reply) s = backendReply k reply s"
| "handle (BackendFail k) s = backendFail k s"
| "handle UtteranceStart s =
     (case utterance s of None \<Rightarrow> s | Some u \<Rightarrow> s\<lparr>isSpeaking := True\<rparr>)"
| "handle UtteranceEnd s =
     (case utterance s of
        None \<Rightarrow> s
      | Some (text, cb) \<Rightarrow> run_on_end cb (s\<lparr>isSpeaking := False, utterance := None\<rparr>))"
| "handle UtteranceError s =
     (case utterance s of None \<Rightarrow> s | Some u \<Rightarrow> s\<lparr>isSpeaking := False, utterance := None\<rparr>)"

definition step :: "event \<Rightarrow> va_state \<Rightarrow> va_state" where
  "step e s = settle (handle e s)"

fun run :: "event list \<Rightarrow> va_state \<Rightarrow> va_state" where
  "run [] s = s"
| "run (e # es) s = run es (step e s)"


section \<open>Notions of the specification\<close>

text \<open>The silence delay in the words of the specification, with the word count of the
  text in place of the number of pieces that the source computes.\<close>

definition spec_silenceDelay :: "string \<Rightarrow> nat" where
  "spec_silenceDelay text = (if word_count text > 5 then 1200 else 1500)"

text \<open>Mutual exclusion as the specification states it: the input adapter is active
  exactly in \<open>Listening\<close>, the output adapter exactly in \<open>Speaking\<close>.\<close>

definition mutex_inv :: "va_state \<Rightarrow> bool" where
  "mutex_inv s =
     ((isListening s \<longleftrightarrow> status s = Listening) \<and> (isSpeaking s \<longleftrightarrow> status s = Speaking))"

text \<open>The events that resolve a turn: the end of the spoken reply, a failed request, an
  interrupt and a cancel.\<close>

fun is_resolution :: "event \<Rightarrow> bool" where
  "is_resolution UtteranceEnd = True"
| "is_resolution (BackendFail k) = True"
| "is_resolution Interrupt = True"
| "is_resolution Cancel = True"
| "is_resolution e = False"

subsection \<open>Concrete runs\<close>

text \<open>The session is started and the greeting is spoken to its end: the controller
  listens.\<close>

definition greeted :: "event list" where
  "greeted = [Start, UtteranceStart, UtteranceEnd]"

definition listening_state :: va_state where
  "listening_state = run greeted (init True True)"

text \<open>The user says \<open>t\<close>: an interim result, the final result, and the silence timer
  that the interim result armed.\<close>

definition said :: "string \<Rightarrow> event list" where
  "said t = [Result [(t, False)], Result [(t, True)], SilenceFire]"

text \<open>The first turn, \<open>a\<close>, has been dispatched and its request is in flight.\<close>

definition dispatched_state :: va_state where
  "dispatched_state = run (greeted @ said ''a'') (init True True)"

text \<open>The first turn is cancelled while its request is in flight, listening resumes and
  a second turn, \<open>b\<close>, is dispatched.\<close>

definition stale_trace :: "event list" where
  "stale_trace = greeted @ said ''a'' @ [Cancel, TimerFire 0] @ said ''b''"

definition stale_state :: va_state where
  "stale_state = run stale_trace (init True True)"

text \<open>The reply \<open>hi\<close> to the first turn has arrived and the settle delay has passed:
  \<open>speak\<close> has been called, the utterance has not started yet. Then it starts.\<close>

definition queued_state :: va_state where
  "queued_state =
     run (greeted @ said ''a'' @ [BackendReply 0 ''hi'', TimerFire 0]) (init True True)"

definition speaking_state :: va_state where
  "speaking_state = step UtteranceStart queued_state"

text \<open>The controller listens and the final result \<open>a\<close> has arrived; the silence timer
  has not fired yet.\<close>

definition final_pending_state :: va_state where
  "final_pending_state =
     run (greeted @ [Result [(''a'', False)], Result [(''a'', True)]]) (init True True)"

text \<open>The same with the text \<open>hello\<close>, after the silence timer has stopped the
  recogniser and before the next render.\<close>

definition paused_state :: va_state where
  "paused_state = handle SilenceFire
     (run (greeted @ [Result [(''hello'', False)], Result [(''hello'', True)]]) (init True True))"

text \<open>States built by hand: both adapters active; listening with a silence timer pending
  and no interim text; listening with the interim text \<open>t\<close>.\<close>

definition both_active :: va_state where
  "both_active = (init True True)\<lparr>isListening := True, isSpeaking := True\<rparr>"

definition pending_timer :: va_state where
  "pending_timer =
     (init True True)\<lparr>isListening := True, silenceTimerRef := Some (1500, True, ''a b'')\<rparr>"

definition heard :: "string \<Rightarrow> va_state" where
  "heard t = (init True True)\<lparr>isListening := True, interimTranscript := t\<rparr>"

section \<open>Notions of the proofs\<close>

text \<open>The guard of the final-transcript effect, and the conditions under which a render
  dispatches a turn or stops the recogniser from the status effect.\<close>

definition accepts :: "va_state \<Rightarrow> va_state \<Rightarrow> bool" where
  "accepts r s =
     (transcript r \<noteq> [] \<and> \<not> isListening r \<and> hasStarted r \<and> \<not> processingRef s
      \<and> transcript r \<noteq> lastTranscriptRef s \<and> js_trim (transcript r) \<noteq> [])"

definition dispatches :: "va_state \<Rightarrow> bool" where
  "dispatches r =
     ((transcript r \<noteq> depTranscript r \<or> isListening r \<noteq> depListening r
         \<or> hasStarted r \<noteq> depStarted r)
      \<and> transcript r \<noteq> [] \<and> \<not> isListening r \<and> hasStarted r \<and> \<not> processingRef r
      \<and> transcript r \<noteq> lastTranscriptRef r \<and> js_trim (transcript r) \<noteq> [])"

definition stops :: "va_state \<Rightarrow> bool" where
  "stops r =
     ((isListening r \<noteq> depListening r \<or> isSpeaking r \<noteq> depSpeaking r)
      \<and> \<not> processingRef r \<and> isSpeaking r \<and> isListening r)"

text \<open>No dependency of an effect differs from the last render.\<close>

definition settled :: "va_state \<Rightarrow> bool" where
  "settled s =
     (interimTranscript s = depInterim s \<and> transcript s = depTranscript s
      \<and> isListening s = depListening s \<and> hasStarted s = depStarted s
      \<and> isSpeaking s = depSpeaking s)"

text \<open>From \<open>s\<close> to \<open>s'\<close> either nothing was dispatched, or one message was, which
  differs from the last one dispatched, with the flag clear before and set after.\<close>

definition grows :: "va_state \<Rightarrow> va_state \<Rightarrow> bool" where
  "grows s s' =
     ((sent s' = sent s \<and> lastTranscriptRef s' = lastTranscriptRef s
         \<and> processingRef s' = processingRef s)
      \<or> (\<not> processingRef s \<and> processingRef s' \<and> sent s' = sent s @ [lastTranscriptRef s']
         \<and> lastTranscriptRef s' \<noteq> lastTranscriptRef s))"

text \<open>The invariant of the dispatch order, and the invariant of an environment without
  speech synthesis.\<close>

definition adj_inv :: "va_state \<Rightarrow> bool" where
  "adj_inv s = (distinct_adj (sent s) \<and> (sent s = [] \<or> last (sent s) = lastTranscriptRef s))"

definition no_synth_inv :: "va_state \<Rightarrow> bool" where
  "no_synth_inv s =
     (\<not> synthSupported s \<and> \<not> isListening s \<and> \<not> recStarted s \<and> utterance s = None
      \<and> \<not> isSpeaking s \<and> transcript s = [] \<and> timers s = [] \<and> inflight s = []
      \<and> silenceTimerRef s = None)"

section \<open>Renders and effects\<close>

text \<open>
  What each effect and each render does to the fields, one equation per field. A render
  dispatches at most one turn, and three renders settle.
\<close>

lemmas effect_defs = pass_def Let_def silenceEffect_def transcriptEffect_def statusEffect_def
  handleUserMessage_def stopListening_def resetTranscript_def

lemma silenceEffect_fields:
  "sent (silenceEffect r s) = sent s" "processingRef (silenceEffect r s) = processingRef s"
  "lastTranscriptRef (silenceEffect r s) = lastTranscriptRef s"
  "transcript (silenceEffect r s) = transcript s"
  "interimTranscript (silenceEffect r s) = interimTranscript s"
  "isListening (silenceEffect r s) = isListening s" "inflight (silenceEffect r s) = inflight s"
  "hasStarted (silenceEffect r s) = hasStarted s" "isSpeaking (silenceEffect r s) = isSpeaking s"
  "recStarted (silenceEffect r s) = recStarted s" "utterance (silenceEffect r s) = utterance s"
  "timers (silenceEffect r s) = timers s" "synthSupported (silenceEffect r s) = synthSupported s"
  "recSupported (silenceEffect r s) = recSupported s"
  "needsPermission (silenceEffect r s) = needsPermission s"
  "status (silenceEffect r s) = status s"
  by (simp_all add: silenceEffect_def)

lemma statusEffect_fields:
  "sent (statusEffect r s) = sent s" "processingRef (statusEffect r s) = processingRef s"
  "lastTranscriptRef (statusEffect r s) = lastTranscriptRef s"
  "transcript (statusEffect r s) = transcript s"
  "interimTranscript (statusEffect r s) = interimTranscript s"
  "inflight (statusEffect r s) = inflight s"
  "hasStarted (statusEffect r s) = hasStarted s" "isSpeaking (statusEffect r s) = isSpeaking s"
  "recStarted (statusEffect r s) = recStarted s" "utterance (statusEffect r s) = utterance s"
  "timers (statusEffect r s) = timers s" "synthSupported (statusEffect r s) = synthSupported s"
  "recSupported (statusEffect r s) = recSupported s"
  "needsPermission (statusEffect r s) = needsPermission s"
  "silenceTimerRef (statusEffect r s) = silenceTimerRef s"
  by (simp_all add: statusEffect_def stopListening_def Let_def)

lemma statusEffect_isListening:
  "isListening (statusEffect r s) =
     (isListening s \<and> \<not> (\<not> processingRef s \<and> isSpeaking r \<and> isListening r))"
  by (simp add: statusEffect_def stopListening_def Let_def)

lemma transcriptEffect_fields:
  "sent (transcriptEffect r s) = (if accepts r s then sent s @ [transcript r] else sent s)"
  "processingRef (transcriptEffect r s) = (processingRef s \<or> accepts r s)"
  "lastTranscriptRef (transcriptEffect r s) =
     (if accepts r s then transcript r else lastTranscriptRef s)"
  "transcript (transcriptEffect r s) = (if accepts r s then [] else transcript s)"
  "interimTranscript (transcriptEffect r s) = (if accepts r s then [] else interimTranscript s)"
  "isListening (transcriptEffect r s) = (isListening s \<and> \<not> accepts r s)"
  "inflight (transcriptEffect r s) =
     (if accepts r s then inflight s @ [(length (sent s), isSpeaking r)] else inflight s)"
  "status (transcriptEffect r s) = (if accepts r s then Processing else status s)"
  "hasStarted (transcriptEffect r s) = hasStarted s"
  "isSpeaking (transcriptEffect r s) = isSpeaking s"
  "recStarted (transcriptEffect r s) = recStarted s"
  "utterance (transcriptEffect r s) = utterance s"
  "timers (transcriptEffect r s) = timers s"
  "synthSupported (transcriptEffect r s) = synthSupported s"
  "recSupported (transcriptEffect r s) = recSupported s"
  "needsPermission (transcriptEffect r s) = needsPermission s"
  "silenceTimerRef (transcriptEffect r s) = silenceTimerRef s"
  by (auto simp add: transcriptEffect_def accepts_def handleUserMessage_def stopListening_def
      resetTranscript_def)

lemma accepts_silenceEffect: "accepts r (silenceEffect r' s) = accepts r s"
  by (simp add: accepts_def silenceEffect_fields)

lemma dispatches_accepts:
  "dispatches r =
     ((transcript r \<noteq> depTranscript r \<or> isListening r \<noteq> depListening r
         \<or> hasStarted r \<noteq> depStarted r) \<and> accepts r r)"
  by (auto simp add: dispatches_def accepts_def)

lemmas effect_fields = silenceEffect_fields statusEffect_fields statusEffect_isListening
  transcriptEffect_fields accepts_silenceEffect

lemma pass_sent: "sent (pass r) = (if dispatches r then sent r @ [transcript r] else sent r)"
  by (simp add: pass_def Let_def effect_fields dispatches_accepts)

lemma pass_processingRef: "processingRef (pass r) = (processingRef r \<or> dispatches r)"
  by (simp add: pass_def Let_def effect_fields dispatches_accepts)

lemma pass_lastTranscriptRef:
  "lastTranscriptRef (pass r) = (if dispatches r then transcript r else lastTranscriptRef r)"
  by (simp add: pass_def Let_def effect_fields dispatches_accepts)

lemma pass_transcript: "transcript (pass r) = (if dispatches r then [] else transcript r)"
  by (simp add: pass_def Let_def effect_fields dispatches_accepts)

lemma pass_interimTranscript:
  "interimTranscript (pass r) = (if dispatches r then [] else interimTranscript r)"
  by (simp add: pass_def Let_def effect_fields dispatches_accepts)

lemma pass_isListening: "isListening (pass r) = (isListening r \<and> \<not> stops r)"
  by (auto simp add: pass_def Let_def effect_fields stops_def accepts_def)

lemma pass_inflight:
  "inflight (pass r) =
     (if dispatches r then inflight r @ [(length (sent r), isSpeaking r)] else inflight r)"
  by (simp add: pass_def Let_def effect_fields dispatches_accepts)

lemma pass_unchanged:
  "hasStarted (pass r) = hasStarted r" "isSpeaking (pass r) = isSpeaking r"
  "recStarted (pass r) = recStarted r" "utterance (pass r) = utterance r"
  "timers (pass r) = timers r" "synthSupported (pass r) = synthSupported r"
  "recSupported (pass r) = recSupported r" "needsPermission (pass r) = needsPermission r"
  by (simp_all add: pass_def Let_def effect_fields)

lemma pass_deps:
  "depInterim (pass r) = interimTranscript r" "depTranscript (pass r) = transcript r"
  "depListening (pass r) = isListening r" "depStarted (pass r) = hasStarted r"
  "depSpeaking (pass r) = isSpeaking r"
  by (simp_all add: pass_def Let_def)

lemmas pass_simps = pass_sent pass_processingRef pass_lastTranscriptRef pass_transcript
  pass_interimTranscript pass_isListening pass_inflight pass_unchanged pass_deps

lemma pass_settled: "settled s \<Longrightarrow> pass s = s"
  by (simp add: pass_def settled_def)

lemma settled_pass_iff: "settled (pass s) \<longleftrightarrow> \<not> dispatches s \<and> \<not> stops s"
  by (auto simp: settled_def pass_simps dispatches_def stops_def)

lemma settled_pass_A: "settled s \<or> processingRef s \<Longrightarrow> settled (pass s)"
  by (auto simp: settled_pass_iff) (auto simp: settled_def dispatches_def stops_def)

lemma settled_pass_B: "\<not> isListening s \<Longrightarrow> settled (pass s) \<or> processingRef (pass s)"
  by (auto simp: settled_pass_iff pass_simps stops_def)

lemma settled_pass_C: "settled (pass s) \<or> processingRef (pass s) \<or> \<not> isListening (pass s)"
  by (auto simp: settled_pass_iff pass_simps)

lemma settled_settle: "settled (settle s)"
proof -
  have "settled (pass s) \<or> processingRef (pass s) \<or> \<not> isListening (pass s)"
    by (rule settled_pass_C)
  then have "settled (pass (pass s)) \<or> processingRef (pass (pass s))"
    using settled_pass_A [of "pass s"] settled_pass_B [of "pass s"] by blast
  then show ?thesis
    unfolding settle_def by (rule settled_pass_A)
qed

lemma pass_settle: "pass (settle s) = settle s"
  by (rule pass_settled) (rule settled_settle)

lemma grows_pass: "grows s (pass s)"
  by (auto simp: grows_def pass_simps dispatches_def)

lemma grows_trans: "grows s s1 \<Longrightarrow> grows s1 s2 \<Longrightarrow> grows s s2"
  by (auto simp: grows_def)

lemma grows_settle: "grows s (settle s)"
  unfolding settle_def by (blast intro: grows_pass grows_trans)

lemmas handler_defs = handleStart_def speak_def synthCancel_def handleInterrupt_def
  stopSpeaking_def handleCancel_def stopListening_def startListening_def onresult_def
  onerror_def silenceFire_def backendReply_def backendFail_def Let_def

lemma fire_sent: "sent (fire t s) = sent s" "lastTranscriptRef (fire t s) = lastTranscriptRef s"
  "processingRef (fire t s) = processingRef s"
  by (cases t; simp add: handler_defs split: option.splits)+

lemma run_on_end_sent: "sent (run_on_end cb s) = sent s"
  "lastTranscriptRef (run_on_end cb s) = lastTranscriptRef s"
  by (cases cb; simp add: handler_defs)+

lemma handle_sent: "sent (handle e s) = sent s"
  by (cases e) (simp_all add: handler_defs fire_sent run_on_end_sent split: option.splits prod.splits)

lemma handle_lastTranscriptRef: "lastTranscriptRef (handle e s) = lastTranscriptRef s"
  by (cases e) (simp_all add: handler_defs fire_sent run_on_end_sent split: option.splits prod.splits)

lemma handle_processingRef:
  "processingRef s \<Longrightarrow> \<not> is_resolution e \<Longrightarrow> processingRef (handle e s)"
  by (cases e) (simp_all add: handler_defs fire_sent split: option.splits prod.splits)

lemma step_grows:
  "(sent (step e s) = sent s \<and> lastTranscriptRef (step e s) = lastTranscriptRef s)
   \<or> (processingRef (step e s) \<and> sent (step e s) = sent s @ [lastTranscriptRef (step e s)]
       \<and> lastTranscriptRef (step e s) \<noteq> lastTranscriptRef s)"
  using grows_settle [of "handle e s"]
  by (auto simp: grows_def step_def handle_sent handle_lastTranscriptRef)

lemma adj_inv_init: "adj_inv (init synth rec)"
  by (simp add: adj_inv_def init_def)

lemma adj_inv_step: "adj_inv s \<Longrightarrow> adj_inv (step e s)"
  using step_grows [of e s] by (auto simp: adj_inv_def distinct_adj_append_iff)

lemma adj_inv_run: "adj_inv s \<Longrightarrow> adj_inv (run evs s)"
  by (induction evs arbitrary: s) (simp_all add: adj_inv_step)

lemma settled_step: "settled (step e s)"
  by (simp add: step_def settled_settle)

lemma settled_init: "settled (init synth rec)"
  by (simp add: settled_def init_def)

lemma settled_run: "settled s \<Longrightarrow> settled (run evs s)"
  by (induction evs arbitrary: s) (simp_all add: settled_step)

lemma settle_settled: "settled s \<Longrightarrow> settle s = s"
  by (simp add: settle_def pass_settled)

lemma step_sent_next:
  "\<exists>more. sent (step e s) = sent s @ more \<and> (more = [] \<or> hd more \<noteq> lastTranscriptRef s)
     \<and> (more = [] \<longrightarrow> lastTranscriptRef (step e s) = lastTranscriptRef s)"
  using step_grows [of e s] by auto

lemma run_sent_next:
  "\<exists>more. sent (run evs s) = sent s @ more \<and> (more = [] \<or> hd more \<noteq> lastTranscriptRef s)
     \<and> (more = [] \<longrightarrow> lastTranscriptRef (run evs s) = lastTranscriptRef s)"
proof (induction evs arbitrary: s)
  case Nil
  show ?case by simp
next
  case (Cons e evs)
  obtain m1 where m1: "sent (step e s) = sent s @ m1"
      "m1 = [] \<or> hd m1 \<noteq> lastTranscriptRef s"
      "m1 = [] \<longrightarrow> lastTranscriptRef (step e s) = lastTranscriptRef s"
    using step_sent_next [of e s] by blast
  obtain m2 where m2: "sent (run evs (step e s)) = sent (step e s) @ m2"
      "m2 = [] \<or> hd m2 \<noteq> lastTranscriptRef (step e s)"
      "m2 = [] \<longrightarrow> lastTranscriptRef (run evs (step e s)) = lastTranscriptRef (step e s)"
    using Cons.IH [of "step e s"] by blast
  show ?case
  proof (cases "m1 = []")
    case True
    with m1 m2 show ?thesis by (intro exI [of _ m2]) auto
  next
    case False
    with m1 m2 show ?thesis by (intro exI [of _ "m1 @ m2"]) auto
  qed
qed

lemma silenceEffect_silenceTimerRef:
  "silenceTimerRef (silenceEffect r s) =
     (if interimTranscript r \<noteq> [] \<and> isListening r \<and> \<not> processingRef s
      then Some (silenceDelay (interimTranscript r), True, interimTranscript r)
      else silenceTimerRef s)"
  by (simp add: silenceEffect_def)

lemma pass_silenceTimerRef:
  "silenceTimerRef (pass r) =
     (if interimTranscript r \<noteq> depInterim r \<and> interimTranscript r \<noteq> [] \<and> isListening r
         \<and> \<not> processingRef r
      then Some (silenceDelay (interimTranscript r), True, interimTranscript r)
      else silenceTimerRef r)"
  by (simp add: pass_def Let_def effect_fields silenceEffect_silenceTimerRef)

lemma pass_flagged:
  assumes "processingRef r"
  shows "processingRef (pass r)" "sent (pass r) = sent r" "isListening (pass r) = isListening r"
    "silenceTimerRef (pass r) = silenceTimerRef r"
  using assms by (simp_all add: pass_simps pass_silenceTimerRef dispatches_def stops_def)

lemma settle_flagged:
  assumes "processingRef r"
  shows "processingRef (settle r)" "sent (settle r) = sent r"
    "isListening (settle r) = isListening r" "silenceTimerRef (settle r) = silenceTimerRef r"
  using assms by (simp_all add: settle_def pass_flagged)

lemma no_synth_inv_init: "no_synth_inv (init False rec)"
  by (simp add: no_synth_inv_def init_def)

lemma no_synth_inv_handle: "no_synth_inv s \<Longrightarrow> no_synth_inv (handle e s)"
  by (cases e) (simp_all add: no_synth_inv_def handler_defs)

lemma no_synth_inv_pass: "no_synth_inv s \<Longrightarrow> no_synth_inv (pass s)"
  by (simp add: no_synth_inv_def pass_simps pass_silenceTimerRef dispatches_def stops_def)

lemma no_synth_inv_step: "no_synth_inv s \<Longrightarrow> no_synth_inv (step e s)"
  by (simp add: step_def settle_def no_synth_inv_pass no_synth_inv_handle)

lemma no_synth_inv_run: "no_synth_inv s \<Longrightarrow> no_synth_inv (run evs s)"
  by (induction evs arbitrary: s) (simp_all add: no_synth_inv_step)

lemma split_space_nonempty: "split_space t \<noteq> []"
  by (induction t) (auto split: list.splits)

lemma length_split_space:
  "length (split_space t) = Suc (length (filter (\<lambda>c. c = CHR '' '') t))"
  by (induction t) (auto split: list.splits simp: split_space_nonempty)

lemma map_of_filter_fst: "map_of (filter (\<lambda>p. fst p \<noteq> k) xs) k = None"
  by (induction xs) auto

lemma onresult_transcript:
  "transcript (onresult rs s) =
     (if snd (collect rs ([], [])) \<noteq> [] then js_trim (snd (collect rs ([], [])))
      else transcript s)"
  "lastTranscriptRef (onresult rs s) = lastTranscriptRef s"
  by (simp_all add: onresult_def Let_def split: prod.splits)

lemma settle_no_dispatch:
  "transcript s = lastTranscriptRef s \<Longrightarrow> sent (settle s) = sent s"
  by (simp add: settle_def pass_simps dispatches_def)

lemma redelivery_dropped:
  assumes "settled s" and "snd (collect rs ([], [])) \<noteq> []"
    and "js_trim (snd (collect rs ([], []))) = lastTranscriptRef s"
  shows "sent (step (Result rs) s) = sent s"
proof (cases "recStarted s")
  case True
  with assms have "transcript (handle (Result rs) s) = lastTranscriptRef (handle (Result rs) s)"
    by (simp add: onresult_transcript)
  then have "sent (settle (handle (Result rs) s)) = sent (handle (Result rs) s)"
    by (rule settle_no_dispatch)
  then show ?thesis
    by (simp only: step_def handle_sent)
next
  case False
  with assms(1) show ?thesis
    by (simp add: step_def settle_settled)
qed

section \<open>The claims\<close>

subsection \<open>C1: mutual exclusion of the audio channel\<close>

text \<open>
  C1, as stated, fails. The claim: in every reachable state the input adapter is active
  if and only if the state is \<open>Listening\<close>, and the output adapter if and only if the
  state is \<open>Speaking\<close>. \<open>handleStart\<close> sets the state to \<open>Listening\<close> and then
  speaks the greeting: right after the start the state is \<open>Listening\<close> and the
  recogniser is not active.
\<close>

theorem mutual_exclusion_counterexample: "\<not> mutex_inv (run [Start] (init True True))"
  by code_simp

text \<open>
  C1, amended. The status effect, run on a render with the processing flag clear, makes
  the state \<open>Speaking\<close> and stops the recogniser when the output adapter is active, and
  makes the state \<open>Listening\<close> when only the recogniser is active; and a message that
  \<open>handleUserMessage\<close> accepts stops the recogniser, sets the flag and enters
  \<open>Processing\<close>.
\<close>

theorem status_effect_exclusion:
  "\<not> processingRef s \<Longrightarrow>
     (isSpeaking s \<longrightarrow> status (statusEffect s s) = Speaking \<and> \<not> isListening (statusEffect s s))
     \<and> (\<not> isSpeaking s \<and> isListening s \<longrightarrow>
          status (statusEffect s s) = Listening \<and> isListening (statusEffect s s))
     \<and> (js_trim m \<noteq> [] \<longrightarrow>
          status (handleUserMessage r m s) = Processing
          \<and> \<not> isListening (handleUserMessage r m s)
          \<and> processingRef (handleUserMessage r m s))"
  by (simp add: statusEffect_def handleUserMessage_def stopListening_def Let_def)

text \<open>
  C1, amended: the theorem at the state with both adapters active and at the message
  \<open>hi\<close>.
\<close>

theorem status_effect_exclusion_witness:
  "\<not> processingRef both_active \<and> isSpeaking both_active
   \<and> status (statusEffect both_active both_active) = Speaking
   \<and> \<not> isListening (statusEffect both_active both_active)
   \<and> js_trim ''hi'' \<noteq> []
   \<and> status (handleUserMessage both_active ''hi'' both_active) = Processing
   \<and> \<not> isListening (handleUserMessage both_active ''hi'' both_active)"
proof -
  have h: "\<not> processingRef both_active" by code_simp
  have sp: "isSpeaking both_active" by code_simp
  have tr: "js_trim ''hi'' \<noteq> []" by code_simp
  from status_effect_exclusion [OF h, of "''hi''" both_active] h sp tr
  show ?thesis by blast
qed

subsection \<open>C2: at-most-once dispatch\<close>

text \<open>
  C2. Whatever events arrive, the messages handed to the backend never hold the same text
  twice in a row: a text is sent at most once until a different one is dispatched. And a
  final result whose trimmed text equals the last dispatched text is dropped, however
  often it is delivered: the comparison is on the text.
\<close>

theorem dispatch_at_most_once:
  "distinct_adj (sent (run evs (init synth rec)))
   \<and> (snd (collect rs ([], [])) \<noteq> []
        \<and> js_trim (snd (collect rs ([], []))) = lastTranscriptRef (run evs (init synth rec))
      \<longrightarrow> sent (step (Result rs) (run evs (init synth rec))) = sent (run evs (init synth rec)))"
proof -
  let ?s = "run evs (init synth rec)"
  have "adj_inv ?s"
    by (rule adj_inv_run) (rule adj_inv_init)
  then have a: "distinct_adj (sent ?s)"
    by (simp add: adj_inv_def)
  have b: "sent (step (Result rs) ?s) = sent ?s"
    if f: "snd (collect rs ([], [])) \<noteq> []"
      and e: "js_trim (snd (collect rs ([], []))) = lastTranscriptRef ?s"
  proof (cases "recStarted ?s")
    case True
    with f e have "transcript (handle (Result rs) ?s) = lastTranscriptRef (handle (Result rs) ?s)"
      by (simp add: onresult_transcript)
    then have "sent (settle (handle (Result rs) ?s)) = sent (handle (Result rs) ?s)"
      by (rule settle_no_dispatch)
    then show ?thesis
      by (simp only: step_def handle_sent)
  next
    case False
    have "settled ?s"
      by (rule settled_run) (rule settled_init)
    with False show ?thesis
      by (simp add: step_def settle_settled)
  qed
  from a b show ?thesis by blast
qed

text \<open>
  C2: the theorem after the first turn \<open>a\<close>, with the final text \<open>a\<close> delivered
  again.
\<close>

theorem dispatch_at_most_once_witness:
  "snd (collect [(''a'', True)] ([], [])) \<noteq> []
   \<and> js_trim (snd (collect [(''a'', True)] ([], [])))
       = lastTranscriptRef (run (greeted @ said ''a'') (init True True))
   \<and> sent (run (greeted @ said ''a'') (init True True)) = [''a'']
   \<and> sent (step (Result [(''a'', True)]) (run (greeted @ said ''a'') (init True True))) = [''a'']
   \<and> distinct_adj (sent (run (greeted @ said ''a'') (init True True)))"
proof -
  have f: "snd (collect [(''a'', True)] ([], [])) \<noteq> []" by code_simp
  have e: "js_trim (snd (collect [(''a'', True)] ([], [])))
       = lastTranscriptRef (run (greeted @ said ''a'') (init True True))" by code_simp
  have s: "sent (run (greeted @ said ''a'') (init True True)) = [''a'']" by code_simp
  from dispatch_at_most_once [of "greeted @ said ''a''" True True "[(''a'', True)]"] f e s
  show ?thesis by simp
qed

subsection \<open>C3: the processing flag\<close>

text \<open>
  C3, as stated, fails. The claim: the flag is cleared only by the resolution of the turn
  that set it. The requests carry no identity the handlers look at: after the first turn
  is cancelled and a second one is dispatched, the failure of the first request (index 0)
  clears the flag while the second request (index 1) is still in flight.
\<close>

theorem stale_failure_clears_flag_counterexample:
  "processingRef stale_state \<and> sent stale_state = [''a'', ''b'']
   \<and> map fst (inflight stale_state) = [0, 1]
   \<and> \<not> processingRef (step (BackendFail 0) stale_state)
   \<and> map fst (inflight (step (BackendFail 0) stale_state)) = [1]"
  by code_simp

text \<open>
  C3, amended. A dispatch sets the flag at once; an event that clears the flag is of one
  of the four resolving kinds (the end of a spoken reply, a failed request, an interrupt, a
  cancel), of whichever turn; every other event arriving while the flag is set leaves it
  set and dispatches nothing; in particular, while the flag is set the silence timer does
  not stop the recogniser, and a result arms no silence timer and dispatches nothing.
\<close>

theorem flag_discipline:
  "(sent (step e s) \<noteq> sent s \<longrightarrow> processingRef (step e s))
   \<and> (processingRef s \<and> \<not> processingRef (step e s) \<longrightarrow> is_resolution e)
   \<and> (processingRef s \<and> \<not> is_resolution e \<longrightarrow> sent (step e s) = sent s)
   \<and> (processingRef s \<longrightarrow>
        isListening (step SilenceFire s) = isListening s
        \<and> silenceTimerRef (step (Result rs) s) = silenceTimerRef s
        \<and> sent (step (Result rs) s) = sent s)"
proof -
  have a: "sent (step e s) \<noteq> sent s \<longrightarrow> processingRef (step e s)"
    using step_grows [of e s] by auto
  have keep: "processingRef (step e' s) \<and> sent (step e' s) = sent s"
    if "processingRef s" "\<not> is_resolution e'" for e'
  proof -
    from that have "processingRef (handle e' s)"
      by (rule handle_processingRef)
    then show ?thesis
      by (simp only: step_def settle_flagged handle_sent simp_thms)
  qed
  have d1: "isListening (step SilenceFire s) = isListening s" if p: "processingRef s"
  proof -
    from p have h: "processingRef (handle SilenceFire s)"
      by (rule handle_processingRef) simp
    from p have "isListening (handle SilenceFire s) = isListening s"
      by (simp add: silenceFire_def Let_def split: option.splits prod.splits)
    with h show ?thesis
      by (simp only: step_def settle_flagged)
  qed
  have d2: "silenceTimerRef (step (Result rs) s) = silenceTimerRef s" if p: "processingRef s"
  proof -
    from p have h: "processingRef (handle (Result rs) s)"
      by (rule handle_processingRef) simp
    have "silenceTimerRef (handle (Result rs) s) = silenceTimerRef s"
      by (simp add: onresult_def Let_def split: prod.splits)
    with h show ?thesis
      by (simp only: step_def settle_flagged)
  qed
  have d3: "sent (step (Result rs) s) = sent s" if p: "processingRef s"
    using keep [OF p, of "Result rs"] by simp
  from a keep d1 d2 d3 show ?thesis by blast
qed

text \<open>
  C3, amended: the theorem at the state with the first turn in flight, for a new final
  result and for the failure of the request, and at the pause that dispatches the turn.
\<close>

theorem flag_discipline_witness:
  "processingRef dispatched_state \<and> \<not> is_resolution (Result [(''b'', True)])
   \<and> sent (step (Result [(''b'', True)]) dispatched_state) = sent dispatched_state
   \<and> processingRef (step (Result [(''b'', True)]) dispatched_state)
   \<and> \<not> processingRef (step (BackendFail 0) dispatched_state) \<and> is_resolution (BackendFail 0)
   \<and> sent (step SilenceFire (run (greeted @ [Result [(''a'', False)], Result [(''a'', True)]])
        (init True True))) \<noteq> sent (run (greeted @ [Result [(''a'', False)], Result [(''a'', True)]])
        (init True True))
   \<and> processingRef (step SilenceFire
        (run (greeted @ [Result [(''a'', False)], Result [(''a'', True)]]) (init True True)))"
proof -
  have p: "processingRef dispatched_state" by code_simp
  have n: "\<not> is_resolution (Result [(''b'', True)])" by simp
  have c: "\<not> processingRef (step (BackendFail 0) dispatched_state)" by code_simp
  have g: "sent (step SilenceFire (run (greeted @ [Result [(''a'', False)], Result [(''a'', True)]])
        (init True True))) \<noteq> sent (run (greeted @ [Result [(''a'', False)], Result [(''a'', True)]])
        (init True True))" by code_simp
  from flag_discipline [of "Result [(''b'', True)]" dispatched_state "[]"]
    flag_discipline [of "BackendFail 0" dispatched_state "[]"]
    flag_discipline [of SilenceFire
      "run (greeted @ [Result [(''a'', False)], Result [(''a'', True)]]) (init True True)" "[]"]
    p n c g
  show ?thesis by simp
qed

subsection \<open>C4: the silence delay\<close>

text \<open>
  C4, as stated, fails. The claim: the delay is 1200 if the word count of the text exceeds
  5 and 1500 otherwise, for every interim update received while listening and not
  processing. The source counts the pieces between single spaces: the five words
  \<open>a b c d e\<close> after a leading space are six pieces and get 1200. And an update to the
  empty text, as the final result makes, neither cancels the pending timer nor arms a new
  one.
\<close>

theorem silence_delay_counterexample:
  "silenceDelay '' a b c d e'' \<noteq> spec_silenceDelay '' a b c d e''
   \<and> interimTranscript pending_timer = [] \<and> isListening pending_timer
   \<and> \<not> processingRef pending_timer
   \<and> silenceTimerRef (silenceEffect pending_timer pending_timer) = Some (1500, True, ''a b'')"
  by code_simp

text \<open>
  C4, amended. For every interim update with a text that is not empty, received while
  listening and not processing, the silence timer is replaced by one with the delay 1200
  if the number of pieces of the text between single spaces, one more than its number of
  spaces, exceeds 5, and 1500 otherwise; the displayed transcript becomes the text.
\<close>

theorem silence_effect_policy:
  "interimTranscript r \<noteq> [] \<Longrightarrow> isListening r \<Longrightarrow> \<not> processingRef s \<Longrightarrow>
     silenceTimerRef (silenceEffect r s) =
       Some (if 5 < length (split_space (interimTranscript r)) then 1200 else 1500, True,
             interimTranscript r)
     \<and> length (split_space (interimTranscript r)) =
         Suc (length (filter (\<lambda>c. c = CHR '' '') (interimTranscript r)))
     \<and> currentTranscript (silenceEffect r s) = interimTranscript r"
  by (simp add: silenceEffect_def silenceDelay_def length_split_space)

text \<open>
  C4, amended: the theorem at a text of six words and at a text of three words.
\<close>

theorem silence_effect_policy_witness:
  "interimTranscript (heard ''one two three four five six'') \<noteq> []
   \<and> isListening (heard ''one two three four five six'')
   \<and> \<not> processingRef pending_timer
   \<and> silenceTimerRef (silenceEffect (heard ''one two three four five six'') pending_timer)
       = Some (1200, True, ''one two three four five six'')
   \<and> silenceTimerRef (silenceEffect (heard ''one two three'') pending_timer)
       = Some (1500, True, ''one two three'')"
proof -
  have a: "interimTranscript (heard ''one two three four five six'') = ''one two three four five six''"
    "interimTranscript (heard ''one two three'') = ''one two three''"
    "isListening (heard ''one two three four five six'')" "isListening (heard ''one two three'')"
    "\<not> processingRef pending_timer"
    by code_simp+
  have n: "length (split_space ''one two three four five six'') = 6"
    "length (split_space ''one two three'') = 3"
    by code_simp+
  from silence_effect_policy [of "heard ''one two three four five six''" pending_timer]
    silence_effect_policy [of "heard ''one two three''" pending_timer] a n
  show ?thesis by simp
qed

subsection \<open>C5: the final transcript\<close>

text \<open>
  C5, as stated, fails. The claim: in \<open>Listening\<close> a final transcript that differs from
  the last dispatched one and is not empty is dispatched when it arrives, whatever the
  pause signal does, if the flag is clear. The effect asks for \<open>!isListening\<close>: while
  the recogniser is active a final transcript is stored and nothing is dispatched.
\<close>

theorem final_while_listening_counterexample:
  "status listening_state = Listening \<and> isListening listening_state \<and> \<not> processingRef listening_state
   \<and> lastTranscriptRef listening_state = []
   \<and> transcript (step (Result [(''hello'', True)]) listening_state) = ''hello''
   \<and> \<not> processingRef (step (Result [(''hello'', True)]) listening_state)
   \<and> sent (step (Result [(''hello'', True)]) listening_state) = []
   \<and> status (step (Result [(''hello'', True)]) listening_state) = Listening"
  by code_simp

text \<open>
  C5, amended. When the final-transcript effect runs on a render in which the session has
  started, the recogniser is not active (the pause signal or anything else has stopped
  it), the flag is clear and the transcript is not empty, not only white space and
  differs from the last dispatched one, it sets the flag, hands the transcript to the
  backend, records it as the last dispatched one and enters \<open>Processing\<close>.
\<close>

theorem final_transcript_dispatch:
  "transcript s \<noteq> [] \<Longrightarrow> \<not> isListening s \<Longrightarrow> hasStarted s \<Longrightarrow> \<not> processingRef s \<Longrightarrow>
   transcript s \<noteq> lastTranscriptRef s \<Longrightarrow> js_trim (transcript s) \<noteq> [] \<Longrightarrow>
     processingRef (transcriptEffect s s)
     \<and> sent (transcriptEffect s s) = sent s @ [transcript s]
     \<and> status (transcriptEffect s s) = Processing
     \<and> lastTranscriptRef (transcriptEffect s s) = transcript s
     \<and> \<not> isListening (transcriptEffect s s)
     \<and> transcript (transcriptEffect s s) = []"
  by (simp add: transcriptEffect_fields accepts_def)

text \<open>
  C5, amended: the theorem at the state in which the silence timer has just stopped the
  recogniser with the final transcript \<open>hello\<close> stored.
\<close>

theorem final_transcript_dispatch_witness:
  "transcript paused_state = ''hello'' \<and> \<not> isListening paused_state \<and> hasStarted paused_state
   \<and> \<not> processingRef paused_state \<and> lastTranscriptRef paused_state = [] \<and> js_trim ''hello'' = ''hello''
   \<and> processingRef (transcriptEffect paused_state paused_state)
   \<and> sent (transcriptEffect paused_state paused_state) = sent paused_state @ [''hello'']
   \<and> status (transcriptEffect paused_state paused_state) = Processing"
proof -
  have h: "transcript paused_state = ''hello''" "\<not> isListening paused_state" "hasStarted paused_state"
    "\<not> processingRef paused_state" "lastTranscriptRef paused_state = []" "js_trim ''hello'' = ''hello''"
    by code_simp+
  from final_transcript_dispatch [of paused_state] h
  show ?thesis by simp
qed

subsection \<open>C6: backend failure\<close>

text \<open>
  C6, as stated, fails. The claim: the flag is cleared after the delay of 2000. The
  \<open>catch\<close> block clears it at once: in the \<open>Error\<close> state, with the timer of 2000
  still pending, the flag is clear.
\<close>

theorem failure_clears_flag_at_once_counterexample:
  "status (step (BackendFail 0) dispatched_state) = Error
   \<and> timers (step (BackendFail 0) dispatched_state) = [(2000, ResumeAfterError)]
   \<and> \<not> processingRef (step (BackendFail 0) dispatched_state)"
  by code_simp

text \<open>
  C6, amended. When the request of a turn fails, the controller at once clears the flag,
  enters \<open>Error\<close>, shows the error text and arms a timer of 2000; when that timer fires
  the state becomes \<open>Listening\<close>, the text is cleared and the recogniser is started.
  Neither step hands anything to the backend.
\<close>

theorem backend_failure_recovery:
  "map_of (inflight s) k = Some cap \<Longrightarrow>
     status (backendFail k s) = Error
     \<and> currentTranscript (backendFail k s) = ''Sorry, something went wrong''
     \<and> \<not> processingRef (backendFail k s)
     \<and> timers (backendFail k s) = timers s @ [(2000, ResumeAfterError)]
     \<and> sent (backendFail k s) = sent s
     \<and> map_of (inflight (backendFail k s)) k = None
     \<and> status (fire ResumeAfterError s2) = Listening
     \<and> currentTranscript (fire ResumeAfterError s2) = []
     \<and> (recSupported s2 \<longrightarrow> isListening (fire ResumeAfterError s2))
     \<and> sent (fire ResumeAfterError s2) = sent s2
     \<and> processingRef (fire ResumeAfterError s2) = processingRef s2"
  by (simp add: backendFail_def startListening_def map_of_filter_fst)

text \<open>
  C6, amended: the theorem at the state with the first turn in flight.
\<close>

theorem backend_failure_recovery_witness:
  "map_of (inflight dispatched_state) 0 = Some False
   \<and> status (backendFail 0 dispatched_state) = Error
   \<and> \<not> processingRef (backendFail 0 dispatched_state)
   \<and> timers (backendFail 0 dispatched_state) = [(2000, ResumeAfterError)]
   \<and> sent (backendFail 0 dispatched_state) = [''a'']
   \<and> recSupported (backendFail 0 dispatched_state)
   \<and> isListening (fire ResumeAfterError (backendFail 0 dispatched_state))"
proof -
  have h: "map_of (inflight dispatched_state) 0 = Some False" "timers dispatched_state = []"
    "sent dispatched_state = [''a'']" "recSupported (backendFail 0 dispatched_state)"
    by code_simp+
  from backend_failure_recovery [of dispatched_state 0 False "backendFail 0 dispatched_state"] h
  show ?thesis by simp
qed

subsection \<open>C7: interrupt\<close>

text \<open>
  C7, as stated, fails. The claim: an interrupt in the state \<open>Speaking\<close> stops the
  output and clears the flag. The handler asks for \<open>isSpeaking\<close>, which the start of
  the utterance sets: between the call of \<open>speak\<close> and that start the state is
  \<open>Speaking\<close> and an interrupt changes nothing.
\<close>

theorem interrupt_before_speech_counterexample:
  "status queued_state = Speaking \<and> processingRef queued_state \<and> \<not> isSpeaking queued_state
   \<and> utterance queued_state = Some (''hi'', ReplyEnd False)
   \<and> step Interrupt queued_state = queued_state"
  by code_simp

text \<open>
  C7, amended. The interrupt has an effect only while the output adapter reports that it
  is speaking. Then it stops the output at once, clears the flag, the transcript and the
  response, sets the state to \<open>Listening\<close> and arms a timer of 300 that starts the
  recogniser; it hands nothing to the backend. While the output adapter is not speaking
  it changes nothing.
\<close>

theorem interrupt_protocol:
  "(\<not> isSpeaking s \<longrightarrow> handleInterrupt s = s)
   \<and> (isSpeaking s \<and> synthSupported s \<longrightarrow>
        \<not> isSpeaking (handleInterrupt s) \<and> utterance (handleInterrupt s) = None
        \<and> \<not> processingRef (handleInterrupt s)
        \<and> currentTranscript (handleInterrupt s) = [] \<and> lastResponse (handleInterrupt s) = []
        \<and> status (handleInterrupt s) = Listening
        \<and> timers (handleInterrupt s) = timers s @ [(300, ResumeAfterInterrupt)]
        \<and> isListening (handleInterrupt s) = isListening s
        \<and> sent (handleInterrupt s) = sent s)
   \<and> fire ResumeAfterInterrupt s2 = startListening s2
   \<and> (recSupported s2 \<longrightarrow> isListening (startListening s2))"
  by (simp add: handleInterrupt_def stopSpeaking_def synthCancel_def startListening_def
      split: option.splits)

text \<open>
  C7, amended: the theorem at the state in which the reply is being spoken and at the
  state in which it is only queued.
\<close>

theorem interrupt_protocol_witness:
  "isSpeaking speaking_state \<and> synthSupported speaking_state \<and> processingRef speaking_state
   \<and> \<not> isSpeaking (handleInterrupt speaking_state) \<and> utterance (handleInterrupt speaking_state) = None
   \<and> \<not> processingRef (handleInterrupt speaking_state)
   \<and> status (handleInterrupt speaking_state) = Listening
   \<and> timers (handleInterrupt speaking_state) = [(300, ResumeAfterInterrupt)]
   \<and> \<not> isSpeaking queued_state \<and> handleInterrupt queued_state = queued_state
   \<and> recSupported speaking_state \<and> isListening (startListening speaking_state)"
proof -
  have h: "isSpeaking speaking_state" "synthSupported speaking_state" "processingRef speaking_state"
    "timers speaking_state = []" "\<not> isSpeaking queued_state" "recSupported speaking_state"
    by code_simp+
  from interrupt_protocol [of speaking_state speaking_state] interrupt_protocol [of queued_state speaking_state] h
  show ?thesis by simp
qed

subsection \<open>C8: cancel\<close>

text \<open>
  C8 on the code. The controller listens and the final transcript \<open>a\<close> has arrived.
  One cancel stops the recogniser, and the final-transcript effect, whose dependency
  \<open>isListening\<close> has changed, dispatches \<open>a\<close>: the flag is set, the state is
  \<open>Processing\<close> and the text is shown. A second cancel clears all that. Cancelling
  twice is not cancelling once.
\<close>

theorem cancel_dispatches_pending_final:
  "status final_pending_state = Listening \<and> isListening final_pending_state
   \<and> transcript final_pending_state = ''a'' \<and> sent final_pending_state = []
   \<and> status (step Cancel final_pending_state) = Processing
   \<and> processingRef (step Cancel final_pending_state)
   \<and> currentTranscript (step Cancel final_pending_state) = ''a''
   \<and> sent (step Cancel final_pending_state) = [''a'']
   \<and> status (step Cancel (step Cancel final_pending_state)) = Idle
   \<and> \<not> processingRef (step Cancel (step Cancel final_pending_state))
   \<and> currentTranscript (step Cancel (step Cancel final_pending_state)) = []"
  by code_simp

text \<open>
  After that one cancel, the timer of the cancel restarts the recogniser while the turn
  is in flight, and the reply is then spoken with the recogniser active.
\<close>

lemma cancel_race_both_adapters:
  "isListening (run [Cancel, TimerFire 0, BackendReply 0 ''hi'', TimerFire 0, UtteranceStart]
      final_pending_state)
   \<and> isSpeaking (run [Cancel, TimerFire 0, BackendReply 0 ''hi'', TimerFire 0, UtteranceStart]
      final_pending_state)"
  by code_simp

subsection \<open>C9: no speech synthesis\<close>

text \<open>
  C9. Where speech synthesis is not supported, \<open>speak\<close> changes nothing: no utterance
  is queued, so no completion callback can ever run. Hence, whatever events arrive in
  such an environment, no utterance is ever pending, the recogniser is never started and
  the controller never listens.
\<close>

theorem unsupported_synthesis_never_listens:
  "(\<not> synthSupported s \<longrightarrow> speak text cb s = s)
   \<and> \<not> isListening (run evs (init False rec))
   \<and> \<not> recStarted (run evs (init False rec))
   \<and> utterance (run evs (init False rec)) = None"
proof -
  have "no_synth_inv (run evs (init False rec))"
    by (rule no_synth_inv_run) (rule no_synth_inv_init)
  then show ?thesis
    by (simp add: no_synth_inv_def speak_def)
qed

text \<open>
  C9: the theorem at the greeting and at a run that starts the session and then tries
  cancel, a timer, an interrupt and the end of an utterance.
\<close>

theorem unsupported_synthesis_never_listens_witness:
  "\<not> synthSupported (init False True)
   \<and> speak ''Hello! How can I help you?'' GreetingEnd (init False True) = init False True
   \<and> hasStarted (run [Start, Cancel, TimerFire 0, Interrupt, UtteranceEnd] (init False True))
   \<and> \<not> isListening (run [Start, Cancel, TimerFire 0, Interrupt, UtteranceEnd] (init False True))"
proof -
  have h: "\<not> synthSupported (init False True)"
    "hasStarted (run [Start, Cancel, TimerFire 0, Interrupt, UtteranceEnd] (init False True))"
    by code_simp+
  from unsupported_synthesis_never_listens [of "init False True" "''Hello! How can I help you?''"
      GreetingEnd "[Start, Cancel, TimerFire 0, Interrupt, UtteranceEnd]" True] h
  show ?thesis by simp
qed

subsection \<open>C10: the failed utterance is not dispatched again\<close>

text \<open>
  C10, as stated, fails. The claim: after a backend failure the record of the last
  dispatched utterance holds the text of the failed utterance, so that text, said again,
  is never dispatched. The record holds the text of the turn dispatched last, and the
  \<open>catch\<close> block does not know which turn failed: after the first turn \<open>a\<close> is
  cancelled and the turn \<open>b\<close> is dispatched, the failure of the first request (index
  0, text \<open>a\<close>) leaves \<open>b\<close> in the record, and \<open>a\<close> said again is dispatched.
\<close>

theorem stale_failure_redispatch_counterexample:
  "map_of (inflight stale_state) 0 = Some False \<and> sent stale_state ! 0 = ''a''
   \<and> lastTranscriptRef (step (BackendFail 0) stale_state) = ''b''
   \<and> sent (run ([TimerFire 0] @ said ''a'') (step (BackendFail 0) stale_state))
       = [''a'', ''b'', ''a'']"
  by code_simp

text \<open>
  C10, amended. In a reachable state let the request of the turn dispatched last be in
  flight and fail. Then the controller is in \<open>Error\<close> with the flag clear and the
  request resolved, nothing more has been sent, and the record of the last dispatched
  utterance still holds the text of the failed utterance. So a final result with that
  text is dropped; and whatever events follow the failure, the next message dispatched,
  if there is one, differs from the text of the failed utterance: only a different text
  starts the next turn.
\<close>

theorem failed_utterance_not_redispatched:
  "s = run evs0 (init synth rec) \<Longrightarrow> map_of (inflight s) k = Some cap \<Longrightarrow>
   Suc k = length (sent s) \<Longrightarrow> s' = step (BackendFail k) s \<Longrightarrow>
     status s' = Error \<and> \<not> processingRef s' \<and> map_of (inflight s') k = None
     \<and> sent s' = sent s
     \<and> lastTranscriptRef s' = sent s ! k
     \<and> (snd (collect rs ([], [])) \<noteq> [] \<and> js_trim (snd (collect rs ([], []))) = sent s ! k
          \<longrightarrow> sent (step (Result rs) s') = sent s)
     \<and> (\<exists>more. sent (run evs s') = sent s @ more \<and> (more = [] \<or> hd more \<noteq> sent s ! k))"
proof -
  assume s: "s = run evs0 (init synth rec)" and infl: "map_of (inflight s) k = Some cap"
    and k: "Suc k = length (sent s)" and s': "s' = step (BackendFail k) s"
  have "settled s"
    unfolding s by (rule settled_run) (rule settled_init)
  then have st: "settled (backendFail k s)"
    by (simp add: settled_def backendFail_def split: option.splits)
  then have eq: "s' = backendFail k s"
    by (simp add: s' step_def settle_settled)
  from infl have a: "status s' = Error" "\<not> processingRef s'" "map_of (inflight s') k = None"
    "sent s' = sent s" "lastTranscriptRef s' = lastTranscriptRef s"
    unfolding eq by (simp_all add: backendFail_def map_of_filter_fst)
  have "adj_inv s"
    unfolding s by (rule adj_inv_run) (rule adj_inv_init)
  moreover from k have ne: "sent s \<noteq> []"
    by auto
  ultimately have "lastTranscriptRef s = last (sent s)"
    by (auto simp: adj_inv_def)
  also from ne k have "last (sent s) = sent s ! k"
    by (simp add: last_conv_nth flip: k)
  finally have b: "lastTranscriptRef s' = sent s ! k"
    using a by simp
  have c: "sent (step (Result rs) s') = sent s"
    if "snd (collect rs ([], [])) \<noteq> []" "js_trim (snd (collect rs ([], []))) = sent s ! k"
  proof -
    from st have "settled s'"
      by (simp add: eq)
    with that b have "sent (step (Result rs) s') = sent s'"
      by (intro redelivery_dropped) simp_all
    with a show ?thesis by simp
  qed
  from run_sent_next [of evs s'] a b
  have d: "\<exists>more. sent (run evs s') = sent s @ more \<and> (more = [] \<or> hd more \<noteq> sent s ! k)"
    by auto
  from a b c d show ?thesis by blast
qed

text \<open>
  C10, amended: the theorem at the failure of the first turn \<open>a\<close>, the only one
  dispatched: \<open>a\<close> delivered or said again is dropped, \<open>b\<close> is dispatched.
\<close>

theorem failed_utterance_not_redispatched_witness:
  "map_of (inflight dispatched_state) 0 = Some False \<and> Suc 0 = length (sent dispatched_state)
   \<and> sent dispatched_state ! 0 = ''a''
   \<and> snd (collect [(''a'', True)] ([], [])) \<noteq> []
   \<and> js_trim (snd (collect [(''a'', True)] ([], []))) = ''a''
   \<and> status (step (BackendFail 0) dispatched_state) = Error
   \<and> \<not> processingRef (step (BackendFail 0) dispatched_state)
   \<and> lastTranscriptRef (step (BackendFail 0) dispatched_state) = ''a''
   \<and> sent (step (Result [(''a'', True)]) (step (BackendFail 0) dispatched_state)) = [''a'']
   \<and> sent (run ([TimerFire 0] @ said ''a'') (step (BackendFail 0) dispatched_state)) = [''a'']
   \<and> sent (run ([TimerFire 0] @ said ''a'' @ [Cancel, TimerFire 0] @ said ''b'')
        (step (BackendFail 0) dispatched_state)) = [''a'', ''b'']"
proof -
  have h: "map_of (inflight dispatched_state) 0 = Some False"
    "Suc 0 = length (sent dispatched_state)" "sent dispatched_state = [''a'']"
    "snd (collect [(''a'', True)] ([], [])) \<noteq> []"
    "js_trim (snd (collect [(''a'', True)] ([], []))) = ''a''"
    "sent (run ([TimerFire 0] @ said ''a'') (step (BackendFail 0) dispatched_state)) = [''a'']"
    "sent (run ([TimerFire 0] @ said ''a'' @ [Cancel, TimerFire 0] @ said ''b'')
        (step (BackendFail 0) dispatched_state)) = [''a'', ''b'']"
    by code_simp+
  from failed_utterance_not_redispatched [OF dispatched_state_def h(1) h(2) refl,
      of "[(''a'', True)]" "[TimerFire 0] @ said ''a'' @ [Cancel, TimerFire 0] @ said ''b''"] h
  show ?thesis by simp
qed

end
